theory Spec2Isabelle
  imports Main "HOL-Library.Multiset" "HOL-Library.Char_ord" "HOL-Library.List_Lexorder"
begin

section \<open>Python values used by the scanner modules\<close>

text \<open>
  Python strings are modelled as \<^typ>\<open>string\<close>; a \<^typ>\<open>char\<close> stands for one code point
  in the range 0..255.  Python integers are unbounded and modelled as \<^typ>\<open>int\<close>.
  An exception is a value of \<open>py_error\<close>: \<open>ValueError\<close>, \<open>OverflowError\<close>,
  \<open>MemoryError\<close>, \<open>socket.gaierror\<close>, or an exception of any other class derived
  from \<open>Exception\<close>; a function that may raise
  returns \<open>py_error + 'a\<close> with \<open>Inl\<close> for the exception.
\<close>

datatype py_error = ValueError | OverflowError | MemoryError | Gaierror | OtherError

text \<open>\<open>str.isspace\<close> on one code point below 256: TAB..CR, FS..US, space, NEL, NBSP.\<close>

definition py_isspace :: "char \<Rightarrow> bool" where
  "py_isspace c \<longleftrightarrow>
     c \<in> set [CHR 0x09, CHR 0x0A, CHR 0x0B, CHR 0x0C, CHR 0x0D, CHR 0x1C, CHR 0x1D,
               CHR 0x1E, CHR 0x1F, CHR 0x20, CHR 0x85, CHR 0xA0]"

definition is_digit :: "char \<Rightarrow> bool" where
  "is_digit c \<longleftrightarrow> c \<in> set ''0123456789''"

definition digit_val :: "char \<Rightarrow> int" where
  "digit_val c = int (of_char c) - 48"

text \<open>Removing the characters of a class from both ends; \<open>s.strip()\<close> removes whitespace.\<close>

definition strip_by :: "(char \<Rightarrow> bool) \<Rightarrow> string \<Rightarrow> string" where
  "strip_by sp s = rev (dropWhile sp (rev (dropWhile sp s)))"

definition py_strip :: "string \<Rightarrow> string" where
  "py_strip s = strip_by py_isspace s"

text \<open>\<open>s.split(sep)\<close> for a separator of one character: always at least one piece.\<close>

fun split_char :: "char \<Rightarrow> string \<Rightarrow> string list" where
  "split_char sep [] = [[]]"
| "split_char sep (c # cs) =
     (if c = sep then [] # split_char sep cs
      else (case split_char sep cs of
              [] \<Rightarrow> [[c]]
            | p # ps \<Rightarrow> (c # p) # ps))"

text \<open>The value of a string of decimal digits, most significant digit first.\<close>

definition dec_value :: "string \<Rightarrow> int" where
  "dec_value ds = foldl (\<lambda>acc c. 10 * acc + digit_val c) 0 ds"

text \<open>
  \<open>int(s)\<close> on a string: surrounding whitespace is skipped, one sign is allowed, the
  digits may be grouped by single underscores, and more than \<open>int_max_str_digits\<close>
  digits are refused.  Every failure is a \<open>ValueError\<close>.  The conversion copies
  ASCII characters as they are and skips the whitespace of C (TAB..CR and space), so
  that FS..US, which \<open>str.isspace\<close> accepts, are not skipped; NEL and NBSP are turned
  into spaces first.
\<close>

definition int_isspace :: "char \<Rightarrow> bool" where
  "int_isspace c \<longleftrightarrow>
     c \<in> set [CHR 0x09, CHR 0x0A, CHR 0x0B, CHR 0x0C, CHR 0x0D, CHR 0x20, CHR 0x85, CHR 0xA0]"

definition int_max_str_digits :: nat where
  "int_max_str_digits = 4300"

definition py_int :: "string \<Rightarrow> py_error + int" where
  "py_int s =
     (let t = strip_by int_isspace s;
          neg = (case t of c # _ \<Rightarrow> c = CHR ''-'' | [] \<Rightarrow> False);
          body = (case t of c # r \<Rightarrow> if c = CHR ''+'' \<or> c = CHR ''-'' then r else t | [] \<Rightarrow> t);
          groups = split_char CHR ''_'' body;
          digits = concat groups
      in if (\<forall>g \<in> set groups. g \<noteq> []) \<and> (\<forall>c \<in> set digits. is_digit c)
            \<and> length digits \<le> int_max_str_digits
         then Inr ((if neg then - 1 else 1) * dec_value digits)
         else Inl ValueError)"

section \<open>Port scanner (modules/port\_scanner.py)\<close>

subsection \<open>\<open>PortScanner._parse_port_range\<close>\<close>

text \<open>
  The port list lives in memory.  \<open>cap\<close> is the number of elements to which a list can
  grow on the machine at hand, never more than \<open>sys.maxsize\<close> divided by the size of
  a pointer: a list operation that needs more raises \<open>MemoryError\<close>.
  \<open>port_list.extend(range(start, stop))\<close> first takes the length of the range, which
  raises \<open>OverflowError\<close> when it is above \<open>sys.maxsize\<close> (\<open>2 ^ 63 - 1\<close> on a 64-bit
  build), and then makes room for all its elements at once.
\<close>

definition ssize_t_max :: int where
  "ssize_t_max = 2 ^ 63 - 1"

definition list_limit :: "nat \<Rightarrow> int" where
  "list_limit cap = min (int cap) (ssize_t_max div 8)"

definition list_append :: "nat \<Rightarrow> int list \<Rightarrow> int \<Rightarrow> py_error + int list" where
  "list_append cap xs x =
     (if list_limit cap < int (length xs) + 1 then Inl MemoryError else Inr (xs @ [x]))"

definition list_extend_range :: "nat \<Rightarrow> int list \<Rightarrow> int \<Rightarrow> int \<Rightarrow> py_error + int list" where
  "list_extend_range cap xs start stop =
     (let n = (if stop \<le> start then 0 else stop - start)
      in if ssize_t_max < n then Inl OverflowError
         else if list_limit cap < int (length xs) + n then Inl MemoryError
         else Inr (xs @ [start..stop - 1]))"

text \<open>
  One part of the comma-separated string, added to \<open>port_list\<close>.
  \<open>start, end = map(int, part.split('-'))\<close> raises \<open>ValueError\<close> when a piece is not
  an integer and when there are not exactly two pieces; \<open>range(start, end + 1)\<close> is
  empty when \<open>end < start\<close>.
\<close>

definition parse_part :: "nat \<Rightarrow> int list \<Rightarrow> string \<Rightarrow> py_error + int list" where
  "parse_part cap port_list part =
     (if CHR ''-'' \<in> set part then
        (case split_char CHR ''-'' part of
           [a, b] \<Rightarrow>
             (case py_int a of
                Inl e \<Rightarrow> Inl e
              | Inr start \<Rightarrow>
                  (case py_int b of
                     Inl e \<Rightarrow> Inl e
                   | Inr end' \<Rightarrow> list_extend_range cap port_list start (end' + 1)))
         | _ \<Rightarrow> Inl ValueError)
      else
        (case py_int part of
           Inl e \<Rightarrow> Inl e
         | Inr p \<Rightarrow> list_append cap port_list p))"

text \<open>The loop over the parts: \<open>port_list\<close> grows, the first exception ends the loop.\<close>

fun parse_parts :: "nat \<Rightarrow> string list \<Rightarrow> int list \<Rightarrow> py_error + int list" where
  "parse_parts cap [] port_list = Inr port_list"
| "parse_parts cap (part # parts) port_list =
     (case parse_part cap port_list part of
        Inl e \<Rightarrow> Inl e
      | Inr port_list' \<Rightarrow> parse_parts cap parts port_list')"

definition parse_port_range :: "nat \<Rightarrow> string \<Rightarrow> py_error + int list" where
  "parse_port_range cap ports = parse_parts cap (split_char CHR '','' ports) []"

subsection \<open>\<open>PortScanner._get_service_name\<close>\<close>

definition common_ports :: "(int \<times> string) list" where
  "common_ports =
     [(20, ''ftp-data''), (21, ''ftp''), (22, ''ssh''), (23, ''telnet''),
      (25, ''smtp''), (53, ''dns''), (80, ''http''), (110, ''pop3''),
      (143, ''imap''), (443, ''https''), (445, ''smb''), (3306, ''mysql''),
      (3389, ''rdp''), (5432, ''postgresql''), (5900, ''vnc''), (8080, ''http-proxy''),
      (8443, ''https-alt''), (27017, ''mongodb''), (6379, ''redis'')]"

definition get_service_name :: "int \<Rightarrow> string" where
  "get_service_name p = (case map_of common_ports p of Some n \<Rightarrow> n | None \<Rightarrow> ''unknown'')"

subsection \<open>\<open>PortScanner._scan_port\<close>\<close>

record port_entry =
  port :: int
  protocol :: string
  state :: string
  service :: string

text \<open>
  What the network does to one probe.  The TCP branch creates a socket and calls
  \<open>connect_ex\<close>, which returns an error number (0 for success) or raises; the UDP
  branch sends an empty datagram and waits for one: a datagram arrives, or
  \<open>socket.timeout\<close> is raised, or another exception is raised.
\<close>

datatype connect_result = Returned int | Connect_raised

datatype udp_result = Datagram | Timed_out | Udp_raised

record probe_outcome =
  tcp_connect :: connect_result
  udp_reply :: udp_result

definition scan_port :: "probe_outcome \<Rightarrow> int \<Rightarrow> string \<Rightarrow> port_entry option" where
  "scan_port w p scan_type =
     (if scan_type \<in> set [''tcp'', ''syn''] then
        (case tcp_connect w of
           Returned result \<Rightarrow>
             if result = 0
             then Some \<lparr>port = p, protocol = ''tcp'', state = ''open'',
                        service = get_service_name p\<rparr>
             else None
         | Connect_raised \<Rightarrow> None)
      else if scan_type = ''udp'' then
        (case udp_reply w of
           Datagram \<Rightarrow>
             Some \<lparr>port = p, protocol = ''udp'', state = ''open'',
                   service = get_service_name p\<rparr>
         | Timed_out \<Rightarrow> None
         | Udp_raised \<Rightarrow> None)
      else None)"

subsection \<open>The thread pool\<close>

text \<open>
  \<open>as_completed\<close> yields the submitted futures in the order in which they finish,
  which is some permutation of the order of submission.  The scheduler's choices are
  a list of numbers: each one picks, modulo the number of futures still running, the
  next future to finish; when the choices run out the rest finish in submission order.
\<close>

fun as_completed :: "nat list \<Rightarrow> 'a list \<Rightarrow> 'a list" where
  "as_completed ks [] = []"
| "as_completed [] (x # xs) = x # xs"
| "as_completed (k # ks) (x # xs) =
     (let i = k mod length (x # xs)
      in (x # xs) ! i # as_completed ks (take i (x # xs) @ drop (Suc i) (x # xs)))"

subsection \<open>\<open>PortScanner._custom_scan\<close>\<close>

text \<open>
  \<open>cap\<close> bounds the port list as above; the lists of futures and of results, no
  longer than the port list, are taken to fit.  \<open>net i\<close> is what the network does to
  the probe submitted as number \<open>i\<close>.  The loop
  over \<open>as_completed\<close> appends the results that are not \<open>None\<close>; the list is then sorted
  by port with Python's stable sort.
\<close>

definition custom_scan ::
  "nat \<Rightarrow> (nat \<Rightarrow> probe_outcome) \<Rightarrow> nat list \<Rightarrow> string \<Rightarrow> string \<Rightarrow>
     py_error + port_entry list" where
  "custom_scan cap net sched ports scan_type =
     (case parse_port_range cap ports of
        Inl e \<Rightarrow> Inl e
      | Inr port_list \<Rightarrow>
          (let futures = map (\<lambda>(i, p). scan_port (net i) p scan_type)
                             (zip [0..<length port_list] port_list);
               open_ports = List.map_filter (\<lambda>r. r) (as_completed sched futures)
           in Inr (sort_key port open_ports)))"

subsection \<open>\<open>PortScanner.scan\<close>\<close>

text \<open>
  The result dictionary without its timestamp.  \<open>nmap\<close> says whether the external tool
  answers \<open>nmap --version\<close>; \<open>nmap_scan\<close> is what \<open>_nmap_scan\<close> returns for a port
  string (the parsed output of the tool, or the empty list when it fails).
\<close>

record scan_result =
  scan_target :: string
  scan_type_used :: string
  port_range :: string
  open_ports :: "port_entry list"
  scan_method :: string
  total_open_ports :: nat

definition scan ::
  "nat \<Rightarrow> bool \<Rightarrow> (string \<Rightarrow> port_entry list) \<Rightarrow> (nat \<Rightarrow> probe_outcome) \<Rightarrow> nat list \<Rightarrow>
     string \<Rightarrow> string \<Rightarrow> string \<Rightarrow> py_error + scan_result" where
  "scan cap nmap nmap_scan net sched target ports scan_type =
     (case (if nmap \<and> scan_type = ''syn'' then Inr (nmap_scan ports)
            else custom_scan cap net sched ports scan_type) of
        Inl e \<Rightarrow> Inl e
      | Inr found \<Rightarrow>
          Inr \<lparr>scan_target = target, scan_type_used = scan_type, port_range = ports,
               open_ports = found,
               scan_method = (if nmap then ''nmap'' else ''custom''),
               total_open_ports = length found\<rparr>)"

section \<open>Service detector (modules/service\_detector.py)\<close>

subsection \<open>String operations\<close>

text \<open>\<open>s.lower()\<close> on code points below 256: A..Z and the capital letters of Latin-1.\<close>

definition py_lower_char :: "char \<Rightarrow> char" where
  "py_lower_char c =
     (let n = (of_char c :: nat)
      in if (65 \<le> n \<and> n \<le> 90) \<or> (192 \<le> n \<and> n \<le> 222 \<and> n \<noteq> 215)
         then char_of (n + 32) else c)"

definition py_lower :: "string \<Rightarrow> string" where
  "py_lower s = map py_lower_char s"

text \<open>\<open>kw in s\<close> for strings: \<open>kw\<close> occurs in \<open>s\<close> as a contiguous piece.\<close>

fun py_in :: "string \<Rightarrow> string \<Rightarrow> bool" where
  "py_in kw [] = (kw = [])"
| "py_in kw (c # cs) = (take (length kw) (c # cs) = kw \<or> py_in kw cs)"

subsection \<open>\<open>ServiceDetector._identify_service\<close>\<close>

definition port_services :: "(int \<times> string) list" where
  "port_services =
     [(21, ''FTP''), (22, ''SSH''), (23, ''Telnet''), (25, ''SMTP''), (53, ''DNS''),
      (80, ''HTTP''), (110, ''POP3''), (143, ''IMAP''), (443, ''HTTPS''), (445, ''SMB''),
      (3306, ''MySQL''), (3389, ''RDP''), (5432, ''PostgreSQL''), (5900, ''VNC''),
      (6379, ''Redis''), (8080, ''HTTP-Proxy''), (8443, ''HTTPS-Alt''),
      (27017, ''MongoDB'')]"

definition identify_service :: "int \<Rightarrow> string \<Rightarrow> string" where
  "identify_service p banner =
     (let banner_lower = py_lower banner;
          by_port = (case map_of port_services p of Some n \<Rightarrow> n | None \<Rightarrow> ''Unknown'')
      in if banner \<noteq> [] then
           (if py_in ''ssh'' banner_lower then ''SSH''
            else if py_in ''ftp'' banner_lower then ''FTP''
            else if py_in ''smtp'' banner_lower \<or> py_in ''mail'' banner_lower then ''SMTP''
            else if py_in ''http'' banner_lower \<or> py_in ''apache'' banner_lower
                    \<or> py_in ''nginx'' banner_lower then ''HTTP''
            else if py_in ''mysql'' banner_lower then ''MySQL''
            else if py_in ''postgresql'' banner_lower \<or> py_in ''postgres'' banner_lower
              then ''PostgreSQL''
            else if py_in ''redis'' banner_lower then ''Redis''
            else if py_in ''mongodb'' banner_lower \<or> py_in ''mongo'' banner_lower
              then ''MongoDB''
            else by_port)
         else by_port)"

subsection \<open>Regular expressions of \<open>_extract_version\<close>\<close>

text \<open>
  The four patterns are sequences of character classes, each taken once or one or more
  times (greedy \<open>+\<close>), with one group that runs to the end of the pattern.  The matcher
  backtracks as Python's does: a \<open>+\<close> first takes the longest run and gives characters
  back one at a time while the rest of the pattern fails.  It returns the number of
  characters each atom consumed.
\<close>

datatype atom = One "char \<Rightarrow> bool" | Plus "char \<Rightarrow> bool"

fun first_some :: "'a option list \<Rightarrow> 'a option" where
  "first_some [] = None"
| "first_some (None # xs) = first_some xs"
| "first_some (Some x # xs) = Some x"

fun match_atoms :: "atom list \<Rightarrow> string \<Rightarrow> nat list option" where
  "match_atoms [] s = Some []"
| "match_atoms (One p # as) s =
     (case s of
        [] \<Rightarrow> None
      | c # cs \<Rightarrow> if p c then map_option ((#) 1) (match_atoms as cs) else None)"
| "match_atoms (Plus p # as) s =
     first_some (map (\<lambda>n. map_option ((#) n) (match_atoms as (drop n s)))
                     (rev [1..<Suc (length (takeWhile p s))]))"

record pattern =
  before_group :: "atom list"
  group1 :: "atom list"

text \<open>
  \<open>re.search(pattern, s)\<close> followed by \<open>match.group(1)\<close>: the leftmost start at which
  the pattern matches, and the text the group matched there.
\<close>

definition re_search_group1 :: "pattern \<Rightarrow> string \<Rightarrow> string option" where
  "re_search_group1 pat s =
     first_some
       (map (\<lambda>i. map_option
                    (\<lambda>lens. take (sum_list (drop (length (before_group pat)) lens))
                               (drop (i + sum_list (take (length (before_group pat)) lens)) s))
                    (match_atoms (before_group pat @ group1 pat) (drop i s)))
            [0..<Suc (length s)])"

definition lit :: "char \<Rightarrow> atom" where
  "lit c = One (\<lambda>x. x = c)"

text \<open>
  \<^verbatim>\<open>(\d+\.\d+\.\d+)\<close>, \<^verbatim>\<open>(\d+\.\d+)\<close>, \<^verbatim>\<open>[vV]ersion[:\s]+([^\s]+)\<close> and
  \<^verbatim>\<open>[vV]([0-9.]+)\<close>, in the order of the source.
\<close>

definition patterns :: "pattern list" where
  "patterns =
     [\<lparr>before_group = [],
       group1 = [Plus is_digit, lit CHR ''.'', Plus is_digit, lit CHR ''.'', Plus is_digit]\<rparr>,
      \<lparr>before_group = [],
       group1 = [Plus is_digit, lit CHR ''.'', Plus is_digit]\<rparr>,
      \<lparr>before_group = One (\<lambda>c. c = CHR ''v'' \<or> c = CHR ''V'') # map lit ''ersion''
                        @ [Plus (\<lambda>c. c = CHR '':'' \<or> py_isspace c)],
       group1 = [Plus (\<lambda>c. \<not> py_isspace c)]\<rparr>,
      \<lparr>before_group = [One (\<lambda>c. c = CHR ''v'' \<or> c = CHR ''V'')],
       group1 = [Plus (\<lambda>c. is_digit c \<or> c = CHR ''.'')]\<rparr>]"

subsection \<open>\<open>ServiceDetector._extract_version\<close>\<close>

definition extract_version :: "string \<Rightarrow> string" where
  "extract_version banner =
     (if banner = [] then ''Unknown''
      else
        (case first_some (map (\<lambda>pat. re_search_group1 pat banner) patterns) of
           Some v \<Rightarrow> v
         | None \<Rightarrow>
             (let first_line =
                    take 50 (case split_char CHR 0x0A banner of l # _ \<Rightarrow> l | [] \<Rightarrow> [])
              in if first_line \<noteq> [] then first_line else ''Unknown'')))"

subsection \<open>\<open>ServiceDetector._is_port_open\<close>, \<open>_grab_banner\<close>, \<open>_detect_service\<close>\<close>

text \<open>
  What the network does to the detection of one port: the result of \<open>connect_ex\<close> in
  \<open>_is_port_open\<close>, and in \<open>_grab_banner\<close> either the decoded text that \<open>recv\<close>
  returns or an exception from connecting, sending, the TLS handshake or receiving.
\<close>

record svc_probe =
  port_check :: connect_result
  recv_text :: "py_error + string"

definition is_port_open :: "svc_probe \<Rightarrow> bool" where
  "is_port_open w = (case port_check w of Returned result \<Rightarrow> result = 0 | Connect_raised \<Rightarrow> False)"

text \<open>
  The banner starts as the empty string.  On the HTTPS ports the received text is
  returned as it is; on every other port, and after any exception, the function ends
  with \<open>banner.strip()\<close>.
\<close>

definition grab_banner :: "svc_probe \<Rightarrow> int \<Rightarrow> string" where
  "grab_banner w p =
     (case recv_text w of
        Inl e \<Rightarrow> py_strip []
      | Inr text \<Rightarrow>
          if p \<in> set [80, 8080, 8000, 8888] then py_strip text
          else if p \<in> set [443, 8443] then text
          else py_strip text)"

record service_info =
  svc_port :: int
  svc_state :: string
  svc_service :: string
  svc_banner :: string
  svc_version :: string

definition detect_service :: "svc_probe \<Rightarrow> int \<Rightarrow> service_info option" where
  "detect_service w p =
     (if \<not> is_port_open w then None
      else
        (let banner = grab_banner w p
         in Some \<lparr>svc_port = p, svc_state = ''open'',
                   svc_service = identify_service p banner,
                   svc_banner = banner,
                   svc_version = extract_version banner\<rparr>))"

subsection \<open>\<open>ServiceDetector.detect\<close>\<close>

record detect_result =
  detect_target :: string
  services :: "service_info list"
  total_services :: nat

definition default_ports :: "int list" where
  "default_ports = [21, 22, 23, 25, 53, 80, 110, 143, 443, 445, 3306, 3389, 5432, 8080, 8443]"

text \<open>\<open>net i\<close> is what the network does to the port at position \<open>i\<close> of the list.\<close>

definition detect :: "(nat \<Rightarrow> svc_probe) \<Rightarrow> string \<Rightarrow> int list option \<Rightarrow> detect_result" where
  "detect net target ports =
     (let ps = (case ports of None \<Rightarrow> default_ports | Some l \<Rightarrow> l);
          found = List.map_filter (\<lambda>(i, p). detect_service (net i) p) (zip [0..<length ps] ps)
      in \<lparr>detect_target = target, services = found, total_services = length found\<rparr>)"

section \<open>Subdomain discovery (modules/subdomain\_discovery.py)\<close>

text \<open>
  The collaborators of one run: the answer of \<open>socket.gethostbyname\<close> in the brute-force
  task submitted as number \<open>i\<close>, the name servers of the target, the zone transfer from
  one name server (the names of the zone's nodes), the answer of crt.sh, the answer of
  \<open>socket.gethostbyname\<close> when the results are compiled, and the lines of a wordlist file.
\<close>

record http_response =
  status_code :: int
  json :: "py_error + (py_error + string) list"

record dns_env =
  brute_lookup :: "nat \<Rightarrow> py_error + string"
  ns_lookup :: "py_error + string list"
  xfr :: "string \<Rightarrow> py_error + string list"
  crt_sh :: "py_error + http_response"
  gethostbyname :: "string \<Rightarrow> py_error + string"
  read_wordlist :: "string \<Rightarrow> py_error + string list"

definition default_subdomains :: "string list" where
  "default_subdomains =
     [''www'', ''mail'', ''ftp'', ''localhost'', ''webmail'', ''smtp'', ''pop'', ''ns1'', ''ns2'',
      ''webdisk'', ''ns'', ''cpanel'', ''whm'', ''autodiscover'', ''autoconfig'', ''mx'', ''mx1'',
      ''mx2'', ''imap'', ''pop3'', ''admin'', ''portal'', ''api'', ''dev'', ''staging'', ''test'',
      ''vpn'', ''remote'', ''blog'', ''shop'', ''store'', ''mobile'', ''m'', ''cdn'', ''static'',
      ''assets'', ''img'', ''images'', ''video'', ''media'', ''download'', ''downloads'', ''app'',
      ''apps'', ''cloud'', ''secure'', ''login'', ''sso'', ''auth'', ''support'', ''help'', ''docs'',
      ''documentation'', ''wiki'', ''forum'', ''community'', ''chat'', ''beta'', ''alpha'', ''demo'']"

subsection \<open>\<open>SubdomainDiscovery._test_subdomain\<close>\<close>

text \<open>Only \<open>socket.gaierror\<close> is caught; any other exception leaves the function.\<close>

definition test_subdomain :: "py_error + string \<Rightarrow> string \<Rightarrow> string \<Rightarrow> py_error + string option" where
  "test_subdomain answer target sub =
     (let full_domain = sub @ ''.'' @ target
      in case answer of
           Inr ip \<Rightarrow> Inr (Some full_domain)
         | Inl e \<Rightarrow> if e = Gaierror then Inr None else Inl e)"

subsection \<open>\<open>SubdomainDiscovery._brute_force_subdomains\<close>\<close>

text \<open>
  The loop over \<open>as_completed\<close>: \<open>future.result()\<close> raises what the task raised, which
  ends the loop and the method.
\<close>

fun collect_found :: "(py_error + string option) list \<Rightarrow> string set \<Rightarrow> py_error + string set" where
  "collect_found [] found = Inr found"
| "collect_found (Inl e # rs) found = Inl e"
| "collect_found (Inr None # rs) found = collect_found rs found"
| "collect_found (Inr (Some d) # rs) found = collect_found rs (insert d found)"

definition load_wordlist :: "dns_env \<Rightarrow> string option \<Rightarrow> string list" where
  "load_wordlist env wordlist =
     (case wordlist of
        None \<Rightarrow> default_subdomains
      | Some path \<Rightarrow>
          if path = [] then default_subdomains
          else (case read_wordlist env path of
                  Inl e \<Rightarrow> default_subdomains
                | Inr lines \<Rightarrow> filter (\<lambda>l. l \<noteq> []) (map py_strip lines)))"

definition brute_force_subdomains ::
  "dns_env \<Rightarrow> nat list \<Rightarrow> string \<Rightarrow> string option \<Rightarrow> string set \<Rightarrow> py_error + string set" where
  "brute_force_subdomains env sched target wordlist found =
     (let subdomains = load_wordlist env wordlist;
          futures = map (\<lambda>(i, sub). test_subdomain (brute_lookup env i) target sub)
                        (zip [0..<length subdomains] subdomains)
      in collect_found (as_completed sched futures) found)"

subsection \<open>\<open>SubdomainDiscovery._attempt_zone_transfer\<close>\<close>

text \<open>
  The state is the set of found subdomains together with the list of name servers a
  transfer was requested from.  A failed transfer is caught inside the loop.
\<close>

fun zone_loop ::
  "dns_env \<Rightarrow> string \<Rightarrow> string list \<Rightarrow> string set \<times> string list \<Rightarrow> string set \<times> string list" where
  "zone_loop env target [] st = st"
| "zone_loop env target (ns # nss) (found, asked) =
     zone_loop env target nss
       (case xfr env ns of
          Inl e \<Rightarrow> (found, asked @ [ns])
        | Inr names \<Rightarrow> (found \<union> set (map (\<lambda>name. name @ ''.'' @ target) names), asked @ [ns]))"

definition attempt_zone_transfer :: "dns_env \<Rightarrow> string \<Rightarrow> string set \<Rightarrow> string set \<times> string list" where
  "attempt_zone_transfer env target found =
     (case ns_lookup env of
        Inl e \<Rightarrow> (found, [])
      | Inr ns_records \<Rightarrow> zone_loop env target ns_records (found, []))"

subsection \<open>\<open>SubdomainDiscovery._check_cert_transparency\<close>\<close>

definition py_endswith :: "string \<Rightarrow> string \<Rightarrow> bool" where
  "py_endswith s suffix \<longleftrightarrow>
     length suffix \<le> length s \<and> drop (length s - length suffix) s = suffix"

definition add_names :: "string \<Rightarrow> string \<Rightarrow> string set \<Rightarrow> string set" where
  "add_names target name_value found =
     fold (\<lambda>piece f.
             let subdomain = py_strip piece
             in if py_endswith subdomain target \<and> CHR ''*'' \<notin> set subdomain
                then insert subdomain f else f)
          (split_char CHR 0x0A name_value) found"

text \<open>
  An entry of the answer is its \<open>name_value\<close> string, or raises when it is read; the
  exception ends the loop and is caught, and what was added before stays.
\<close>

fun crt_entries :: "string \<Rightarrow> (py_error + string) list \<Rightarrow> string set \<Rightarrow> string set" where
  "crt_entries target [] found = found"
| "crt_entries target (Inl e # es) found = found"
| "crt_entries target (Inr name_value # es) found =
     crt_entries target es (add_names target name_value found)"

definition check_cert_transparency :: "dns_env \<Rightarrow> string \<Rightarrow> string set \<Rightarrow> string set" where
  "check_cert_transparency env target found =
     (case crt_sh env of
        Inl e \<Rightarrow> found
      | Inr response \<Rightarrow>
          if status_code response = 200 then
            (case json response of
               Inl e \<Rightarrow> found
             | Inr data \<Rightarrow> crt_entries target data found)
          else found)"

subsection \<open>\<open>SubdomainDiscovery._resolve_subdomain\<close> and \<open>discover\<close>\<close>

definition resolve_subdomain :: "dns_env \<Rightarrow> string \<Rightarrow> string" where
  "resolve_subdomain env subdomain =
     (case gethostbyname env subdomain of Inr ip \<Rightarrow> ip | Inl e \<Rightarrow> ''N/A'')"

record subdomain_entry =
  subdomain :: string
  ip_address :: string

record discover_result =
  discover_target :: string
  subdomains :: "subdomain_entry list"
  methods_used :: "string list"
  total_found :: nat

text \<open>
  \<open>found\<close> is \<open>self.found_subdomains\<close> when the method is called (empty for a new
  object); the method returns the result dictionary, without its timestamp, and leaves
  the set as returned in the second component.
\<close>

definition discover ::
  "dns_env \<Rightarrow> nat list \<Rightarrow> string \<Rightarrow> string option \<Rightarrow> string set \<Rightarrow>
     py_error + discover_result \<times> string set" where
  "discover env sched target wordlist found =
     (case brute_force_subdomains env sched target wordlist found of
        Inl e \<Rightarrow> Inl e
      | Inr found1 \<Rightarrow>
          (let found2 = fst (attempt_zone_transfer env target found1);
               found3 = check_cert_transparency env target found2;
               entries = map (\<lambda>s. \<lparr>subdomain = s, ip_address = resolve_subdomain env s\<rparr>)
                             (sorted_list_of_set found3)
           in Inr (\<lparr>discover_target = target, subdomains = entries,
                     methods_used = [''brute_force'', ''zone_transfer'', ''cert_transparency''],
                     total_found = length entries\<rparr>, found3)))"

section \<open>The keyword order of \<open>_identify_service\<close> as a table\<close>

text \<open>
  The keywords in the order in which the source tests them, each with the name it
  returns, and identification as a search for the first keyword of the table that
  occurs in the lower-cased banner.
\<close>

definition keyword_table :: "(string \<times> string) list" where
  "keyword_table =
     [(''ssh'', ''SSH''), (''ftp'', ''FTP''), (''smtp'', ''SMTP''), (''mail'', ''SMTP''),
      (''http'', ''HTTP''), (''apache'', ''HTTP''), (''nginx'', ''HTTP''),
      (''mysql'', ''MySQL''), (''postgresql'', ''PostgreSQL''), (''postgres'', ''PostgreSQL''),
      (''redis'', ''Redis''), (''mongodb'', ''MongoDB''), (''mongo'', ''MongoDB'')]"

definition identify_by_table :: "int \<Rightarrow> string \<Rightarrow> string" where
  "identify_by_table p banner =
     (case find (\<lambda>(kw, name). py_in kw (py_lower banner)) keyword_table of
        Some (kw, name) \<Rightarrow> name
      | None \<Rightarrow> (case map_of port_services p of Some n \<Rightarrow> n | None \<Rightarrow> ''Unknown''))"

section \<open>Example networks\<close>

text \<open>
  Concrete collaborators on which the properties below are evaluated: a host that
  accepts every TCP connection, a domain where only the first brute-force lookup
  resolves, every zone transfer is refused and crt.sh knows two names, a host whose
  port at position 0 greets as an SSH server, a host where of the probes of
  \<open>20-22,80\<close> only the one of port 22 connects, and a domain whose wordlist has a
  line that makes the lookup raise an exception other than \<open>socket.gaierror\<close>.
\<close>

definition all_connect :: "nat \<Rightarrow> probe_outcome" where
  "all_connect i = \<lparr>tcp_connect = Returned 0, udp_reply = Timed_out\<rparr>"

definition only_first_resolves :: dns_env where
  "only_first_resolves =
     \<lparr>brute_lookup = (\<lambda>i. if i = 0 then Inr ''192.0.2.1'' else Inl Gaierror),
      ns_lookup = Inr [''ns1.example.com.'', ''ns2.example.com.''],
      xfr = (\<lambda>ns. Inl OtherError),
      crt_sh = Inr \<lparr>status_code = 200,
                    json = Inr [Inr (''www.example.com'' @ [CHR 0x0A] @ ''api.example.com'')]\<rparr>,
      gethostbyname = (\<lambda>name. if name = ''www.example.com'' then Inr ''192.0.2.1'' else Inl Gaierror),
      read_wordlist = (\<lambda>path. Inr [''www'', ''mail''])\<rparr>"

definition ssh_only :: "nat \<Rightarrow> svc_probe" where
  "ssh_only i =
     (if i = 0 then \<lparr>port_check = Returned 0, recv_text = Inr (''SSH-2.0-OpenSSH_8.2p1'' @ [CHR 0x0D, CHR 0x0A])\<rparr>
      else \<lparr>port_check = Returned 111, recv_text = Inl OtherError\<rparr>)"

definition only_22 :: "nat \<Rightarrow> probe_outcome" where
  "only_22 i =
     (if i = 2 then \<lparr>tcp_connect = Returned 0, udp_reply = Timed_out\<rparr>
      else if i = 3 then \<lparr>tcp_connect = Connect_raised, udp_reply = Udp_raised\<rparr>
      else \<lparr>tcp_connect = Returned 111, udp_reply = Timed_out\<rparr>)"

definition label_too_long :: dns_env where
  "label_too_long =
     \<lparr>brute_lookup = (\<lambda>i. if i = 0 then Inr ''192.0.2.1''
                           else if i = 1 then Inl OtherError else Inl Gaierror),
      ns_lookup = Inl OtherError,
      xfr = (\<lambda>ns. Inl OtherError),
      crt_sh = Inl OtherError,
      gethostbyname = (\<lambda>name. if name = ''www.example.com'' then Inr ''192.0.2.1'' else Inl Gaierror),
      read_wordlist = (\<lambda>path. Inr [''www'', replicate 64 CHR ''a'', ''mail''])\<rparr>"

section \<open>Port strings written from a list of ports and ranges\<close>










section \<open>Properties\<close>

subsection \<open>The thread pool yields every permutation and nothing else\<close>

lemma mset_as_completed: "mset (as_completed ks xs) = mset xs"
proof (induction ks xs rule: as_completed.induct)
  case (3 k ks x xs)
  let ?l = "x # xs"
  let ?i = "k mod length ?l"
  have i: "?i < length ?l" by simp
  have "mset ?l = mset (take ?i ?l @ ?l ! ?i # drop (Suc ?i) ?l)"
    using id_take_nth_drop [OF i] by metis
  also have "\<dots> = add_mset (?l ! ?i) (mset (take ?i ?l @ drop (Suc ?i) ?l))"
    by simp
  finally show ?case
    using "3.IH" [of ?i] by (simp add: Let_def)
qed simp_all

lemma set_as_completed: "set (as_completed ks xs) = set xs"
  using mset_as_completed [of ks xs] by (metis set_mset_mset)

lemma as_completed_any_order:
  "mset ys = mset xs \<Longrightarrow> \<exists>ks. as_completed ks xs = ys"
proof (induction ys arbitrary: xs)
  case Nil
  then show ?case by simp
next
  case (Cons y ys)
  then have "y \<in> set xs" by (metis list.set_intros(1) set_mset_mset)
  then obtain i where i: "i < length xs" "xs ! i = y" by (auto simp: in_set_conv_nth)
  let ?r = "take i xs @ drop (Suc i) xs"
  have "mset xs = add_mset y (mset ?r)"
    using id_take_nth_drop [OF i(1)] i(2) by (metis mset.simps(2) mset_append union_mset_add_mset_right)
  with Cons.prems have "mset ys = mset ?r" by simp
  from Cons.IH [OF this] obtain ks where ks: "as_completed ks ?r = ys" by blast
  from i obtain x xs' where xs: "xs = x # xs'" by (cases xs) auto
  have "as_completed (i # ks) xs = y # ys"
    unfolding xs using i ks unfolding xs by (simp add: Let_def)
  then show ?case by blast
qed

lemma scan_port_Some:
  "scan_port w p st = Some e \<Longrightarrow>
     e = \<lparr>port = p, protocol = (if st = ''udp'' then ''udp'' else ''tcp''), state = ''open'',
          service = get_service_name p\<rparr>"
  by (auto simp: scan_port_def split: if_splits connect_result.splits udp_result.splits)


lemma sort_key_inj_unique:
  assumes m: "mset xs = mset ys" and inj: "inj_on f (set xs)"
  shows "sort_key f xs = sort_key f ys"
proof (rule properties_for_sort_key)
  show "mset (sort_key f ys) = mset xs" using m by simp
  show "sorted (map f (sort_key f ys))" by simp
  fix k assume "k \<in> set (sort_key f ys)"
  then have k: "k \<in> set xs" using m by (metis set_sort set_mset_mset)
  have eq: "filter (\<lambda>x. f k = f x) zs = filter (\<lambda>x. k = x) zs" if "set zs = set xs" for zs
    by (rule filter_cong) (use that k inj in \<open>auto dest: inj_onD\<close>)
  have s: "set ys = set xs" using m by (metis set_mset_mset)
  have "filter (\<lambda>x. f k = f x) (sort_key f ys) = filter (\<lambda>x. f k = f x) ys"
    using sort_key_stable [of f "f k" ys] by (simp add: eq_commute [of "f k"])
  also have "\<dots> = filter (\<lambda>x. k = x) ys" by (rule eq [OF s])
  also have "\<dots> = replicate (count (mset ys) k) k"
    using replicate_count_mset_eq_filter_eq [of ys k] by simp
  also have "\<dots> = filter (\<lambda>x. k = x) xs"
    using replicate_count_mset_eq_filter_eq [of xs k] m by simp
  also have "\<dots> = filter (\<lambda>x. f k = f x) xs" using eq [of xs] by simp
  finally show "filter (\<lambda>x. f k = f x) (sort_key f ys) = filter (\<lambda>x. f k = f x) xs" .
qed

lemma set_map_filter_id: "set (List.map_filter (\<lambda>r. r) rs) = {e. Some e \<in> set rs}"
  by (force simp: List.map_filter_def image_iff)

lemma mset_map_filter_cong:
  "mset xs = mset ys \<Longrightarrow> mset (List.map_filter f xs) = mset (List.map_filter f ys)"
  by (simp add: List.map_filter_def)

subsection \<open>Single probes\<close>

text \<open>
  Claim C2.  A UDP probe whose wait ends in a timeout returns no finding, and a UDP
  probe that returns an entry has received a datagram; the entry's state is open.
\<close>

theorem udp_timeout_is_not_open:
  "(udp_reply w = Timed_out \<longrightarrow> scan_port w p ''udp'' = None) \<and>
   (scan_port w p ''udp'' = Some e \<longrightarrow> udp_reply w = Datagram \<and> state e = ''open'')"
  by (auto simp: scan_port_def split: udp_result.splits)

theorem udp_timeout_is_not_open_witness:
  "udp_reply \<lparr>tcp_connect = Returned 0, udp_reply = Timed_out\<rparr> = Timed_out \<and>
   scan_port \<lparr>tcp_connect = Returned 0, udp_reply = Timed_out\<rparr> 53 ''udp'' = None \<and>
   scan_port \<lparr>tcp_connect = Connect_raised, udp_reply = Datagram\<rparr> 53 ''udp''
     = Some \<lparr>port = 53, protocol = ''udp'', state = ''open'', service = ''dns''\<rparr> \<and>
   udp_reply \<lparr>tcp_connect = Connect_raised, udp_reply = Datagram\<rparr> = Datagram \<and>
   state \<lparr>port = 53, protocol = ''udp'', state = ''open'', service = ''dns''\<rparr> = ''open''"
proof -
  have s: "scan_port \<lparr>tcp_connect = Connect_raised, udp_reply = Datagram\<rparr> 53 ''udp''
     = Some \<lparr>port = 53, protocol = ''udp'', state = ''open'', service = ''dns''\<rparr>"
    by (simp add: scan_port_def get_service_name_def common_ports_def)
  show ?thesis
    using udp_timeout_is_not_open [of "\<lparr>tcp_connect = Returned 0, udp_reply = Timed_out\<rparr>" 53 undefined]
      udp_timeout_is_not_open [of "\<lparr>tcp_connect = Connect_raised, udp_reply = Datagram\<rparr>" 53
         "\<lparr>port = 53, protocol = ''udp'', state = ''open'', service = ''dns''\<rparr>"] s
    by simp
qed

text \<open>
  Claim C9.  On the socket path the scan type \<open>syn\<close> behaves as \<open>tcp\<close>: the same result
  for every probe, for the whole custom scan, and for \<open>scan\<close> when nmap is absent.
\<close>

theorem syn_is_alias_of_tcp:
  "scan_port w p ''syn'' = scan_port w p ''tcp'' \<and>
   custom_scan cap net sched ports ''syn'' = custom_scan cap net sched ports ''tcp'' \<and>
   map_sum id open_ports (scan cap False nmap_scan net sched target ports ''syn'')
     = map_sum id open_ports (scan cap False nmap_scan net sched target ports ''tcp'')"
proof -
  have 1: "scan_port w p ''syn'' = scan_port w p ''tcp''" for w p
    by (simp add: scan_port_def)
  have 2: "custom_scan cap net sched ports ''syn'' = custom_scan cap net sched ports ''tcp''"
    by (simp add: custom_scan_def 1 split: sum.splits)
  have 3: "map_sum id open_ports (scan cap False nmap_scan net sched target ports ''syn'')
     = map_sum id open_ports (scan cap False nmap_scan net sched target ports ''tcp'')"
    by (simp add: scan_def 2 split: sum.splits)
  from 1 2 3 show ?thesis by blast
qed

subsection \<open>Service identification\<close>

text \<open>
  Claim C6, as the specification states it, expects version 8.2 for the banner
  \<open>SSH-2.0-OpenSSH_8.2p1\<close>.  The pattern for two dotted numbers is searched from the
  left, so the version found is not 8.2.
\<close>

theorem ssh_banner_version_counterexample:
  "extract_version ''SSH-2.0-OpenSSH_8.2p1'' \<noteq> ''8.2''"
  by code_simp

text \<open>
  Claim C6, amended.  For the banner \<open>SSH-2.0-OpenSSH_8.2p1\<close> the service is SSH on
  every port (the keyword wins over the port table), and the version is 2.0, the
  leftmost match of the pattern for two dotted numbers.
\<close>

theorem ssh_banner_scenario:
  "identify_service p ''SSH-2.0-OpenSSH_8.2p1'' = ''SSH'' \<and>
   extract_version ''SSH-2.0-OpenSSH_8.2p1'' = ''2.0''"
proof
  have "py_in ''ssh'' (py_lower ''SSH-2.0-OpenSSH_8.2p1'')" by code_simp
  then show "identify_service p ''SSH-2.0-OpenSSH_8.2p1'' = ''SSH''"
    by (simp add: identify_service_def Let_def)
  show "extract_version ''SSH-2.0-OpenSSH_8.2p1'' = ''2.0''" by code_simp
qed

text \<open>
  Claim C3, as the specification states it, wants the keyword order to keep \<open>http\<close>
  from winning over \<open>mysql\<close>.  The source tests \<open>http\<close> before \<open>mysql\<close>: a banner
  with both is identified as HTTP, also on the MySQL port.
\<close>

theorem mysql_preempted_by_http_counterexample:
  "py_in ''mysql'' (py_lower ''mysql http'') \<and> py_in ''http'' (py_lower ''mysql http'') \<and>
   identify_service 3306 ''mysql http'' = ''HTTP''"
  by code_simp

text \<open>
  Claim C3, amended.  Service identification returns the name of the first keyword of
  the table, in the source's order, that occurs in the lower-cased banner; without
  such a keyword it returns the entry of the port table, and \<open>Unknown\<close> when the port
  has none.  In that order \<open>http\<close> comes before \<open>mysql\<close>: a banner with both is
  never identified as MySQL, only as SSH, FTP, SMTP or HTTP.
\<close>

theorem identify_service_first_keyword_wins:
  "identify_service p banner = identify_by_table p banner \<and>
   (py_in ''http'' (py_lower banner) \<and> py_in ''mysql'' (py_lower banner) \<longrightarrow>
      identify_service p banner \<in> {''SSH'', ''FTP'', ''SMTP'', ''HTTP''})"
proof
  show "identify_service p banner = identify_by_table p banner"
  proof (cases "banner = []")
    case True
    then show ?thesis
      by (simp add: identify_service_def identify_by_table_def keyword_table_def py_lower_def)
  next
    case False
    then show ?thesis
      by (simp add: identify_service_def identify_by_table_def keyword_table_def Let_def)
  qed
  show "py_in ''http'' (py_lower banner) \<and> py_in ''mysql'' (py_lower banner) \<longrightarrow>
      identify_service p banner \<in> {''SSH'', ''FTP'', ''SMTP'', ''HTTP''}"
  proof
    assume a: "py_in ''http'' (py_lower banner) \<and> py_in ''mysql'' (py_lower banner)"
    then have "banner \<noteq> []" by (auto simp: py_lower_def)
    with a show "identify_service p banner \<in> {''SSH'', ''FTP'', ''SMTP'', ''HTTP''}"
      by (simp add: identify_service_def Let_def)
  qed
qed

theorem identify_service_first_keyword_wins_witness:
  "py_in ''http'' (py_lower ''mysql http'') \<and> py_in ''mysql'' (py_lower ''mysql http'') \<and>
   identify_service 3306 ''mysql http'' \<in> {''SSH'', ''FTP'', ''SMTP'', ''HTTP''} \<and>
   identify_service 3306 ''mysql http'' = identify_by_table 3306 ''mysql http''"
proof -
  have "py_in ''http'' (py_lower ''mysql http'')" "py_in ''mysql'' (py_lower ''mysql http'')"
    by code_simp+
  with identify_service_first_keyword_wins [of 3306 "''mysql http''"]
  show ?thesis by blast
qed

subsection \<open>The custom port scan\<close>

lemma scan_futures_open:
  "Some e \<in> set (map (\<lambda>(i, p). scan_port (net i) p st) ips) \<Longrightarrow>
     state e = ''open'' \<and>
     e = \<lparr>port = port e, protocol = (if st = ''udp'' then ''udp'' else ''tcp''),
          state = ''open'', service = get_service_name (port e)\<rparr>"
  by (auto dest!: scan_port_Some [OF sym])

lemma open_ports_inj:
  "inj_on port {e. Some e \<in> set (map (\<lambda>(i, p). scan_port (net i) p st) ips)}"
proof (rule inj_onI)
  fix a b
  assume "a \<in> {e. Some e \<in> set (map (\<lambda>(i, p). scan_port (net i) p st) ips)}"
    and "b \<in> {e. Some e \<in> set (map (\<lambda>(i, p). scan_port (net i) p st) ips)}"
    and "port a = port b"
  then show "a = b"
    using scan_futures_open [of a net st ips] scan_futures_open [of b net st ips]
    by (metis mem_Collect_eq)
qed

lemma custom_scan_Inr:
  "parse_port_range cap ports = Inr pl \<Longrightarrow>
     custom_scan cap net sched ports st =
       Inr (sort_key port (List.map_filter (\<lambda>r. r)
              (map (\<lambda>(i, p). scan_port (net i) p st) (zip [0..<length pl] pl))))"
proof -
  assume p: "parse_port_range cap ports = Inr pl"
  let ?fs = "map (\<lambda>(i, p). scan_port (net i) p st) (zip [0..<length pl] pl)"
  have "mset (List.map_filter (\<lambda>r. r) (as_completed sched ?fs)) = mset (List.map_filter (\<lambda>r. r) ?fs)"
    by (rule mset_map_filter_cong) (rule mset_as_completed)
  moreover have "inj_on port (set (List.map_filter (\<lambda>r. r) (as_completed sched ?fs)))"
    using open_ports_inj [of net st "zip [0..<length pl] pl"]
    by (simp only: set_map_filter_id set_as_completed)
  ultimately have "sort_key port (List.map_filter (\<lambda>r. r) (as_completed sched ?fs))
      = sort_key port (List.map_filter (\<lambda>r. r) ?fs)"
    by (rule sort_key_inj_unique)
  then show ?thesis using p by (simp add: custom_scan_def)
qed

lemma custom_scan_Inl:
  "parse_port_range cap ports = Inl e \<Longrightarrow> custom_scan cap net sched ports st = Inl e"
  by (simp add: custom_scan_def)

lemma custom_scan_sched: "custom_scan cap net sched ports st = custom_scan cap net sched' ports st"
  by (cases "parse_port_range cap ports") (simp_all add: custom_scan_Inl custom_scan_Inr)

lemma custom_scan_set:
  assumes "custom_scan cap net sched ports st = Inr es" and "e \<in> set es"
  shows "state e = ''open''"
proof -
  from assms(1) obtain pl where p: "parse_port_range cap ports = Inr pl"
    by (cases "parse_port_range cap ports") (simp_all add: custom_scan_Inl)
  from custom_scan_Inr [OF p, of net sched st] assms
  have "Some e \<in> set (map (\<lambda>(i, p). scan_port (net i) p st) (zip [0..<length pl] pl))"
    by (simp add: set_map_filter_id)
  then show ?thesis by (rule scan_futures_open [THEN conjunct1])
qed

lemma detect_service_open: "detect_service w p = Some s \<Longrightarrow> svc_state s = ''open''"
  by (auto simp: detect_service_def Let_def split: if_splits)

lemma detect_services_open: "s \<in> set (services (detect net target ports)) \<Longrightarrow> svc_state s = ''open''"
  by (auto simp: detect_def Let_def List.map_filter_def dest: detect_service_open split: option.splits)


lemma custom_scan_ports:
  assumes p: "parse_port_range cap ports = Inr pl" and c: "custom_scan cap net sched ports st = Inr es"
  shows "mset (map port es) \<subseteq># mset pl"
proof -
  have sub: "mset (map port (List.map_filter (\<lambda>(i, p). scan_port (net i) p st) ips))
               \<subseteq># mset (map snd ips)" for ips
  proof (induction ips)
    case Nil
    then show ?case by (simp add: List.map_filter_def)
  next
    case (Cons ip ips)
    obtain i q where ip: "ip = (i, q)" by (cases ip)
    show ?case
    proof (cases "scan_port (net i) q st")
      case None
      with Cons ip show ?thesis
        by (simp add: List.map_filter_simps subseteq_mset_def le_SucI)
    next
      case (Some e)
      then have "port e = q" using scan_port_Some [OF Some] by simp
      with Cons ip Some show ?thesis by (simp add: List.map_filter_simps)
    qed
  qed
  have "List.map_filter (\<lambda>r. r) (map f xs) = List.map_filter f xs" for f :: "nat \<times> int \<Rightarrow> port_entry option" and xs
    by (induction xs) (simp_all add: List.map_filter_simps split: option.splits)
  with custom_scan_Inr [OF p, of net sched st] c
  have "es = sort_key port (List.map_filter (\<lambda>(i, p). scan_port (net i) p st) (zip [0..<length pl] pl))"
    by simp
  then have "mset (map port es)
      = mset (map port (List.map_filter (\<lambda>(i, p). scan_port (net i) p st) (zip [0..<length pl] pl)))"
    by simp
  with sub [of "zip [0..<length pl] pl"] show ?thesis by simp
qed

subsection \<open>Subdomain discovery\<close>

lemma collect_found_Inr:
  "\<forall>e. Inl e \<notin> set rs \<Longrightarrow> collect_found rs found = Inr (found \<union> {d. Inr (Some d) \<in> set rs})"
  by (induction rs found rule: collect_found.induct) auto

lemma collect_found_Inl:
  "Inl e \<in> set rs \<Longrightarrow> \<exists>e'. collect_found rs found = Inl e'"
  by (induction rs found rule: collect_found.induct) auto

lemma collect_found_no_error:
  "collect_found rs found = Inr f \<Longrightarrow> \<forall>e. Inl e \<notin> set rs"
  by (induction rs found rule: collect_found.induct) auto

lemma brute_force_sched:
  assumes "brute_force_subdomains env sched target wordlist found = Inr f"
  shows "brute_force_subdomains env sched' target wordlist found = Inr f"
proof -
  let ?fs = "map (\<lambda>(i, sub). test_subdomain (brute_lookup env i) target sub)
                 (zip [0..<length (load_wordlist env wordlist)] (load_wordlist env wordlist))"
  from assms have a: "collect_found (as_completed sched ?fs) found = Inr f"
    by (simp add: brute_force_subdomains_def Let_def)
  from collect_found_no_error [OF a] have ne: "\<forall>e. Inl e \<notin> set ?fs"
    by (simp add: set_as_completed)
  then have "\<forall>e. Inl e \<notin> set (as_completed sched ?fs)" "\<forall>e. Inl e \<notin> set (as_completed sched' ?fs)"
    by (simp_all add: set_as_completed)
  then have "collect_found (as_completed sched' ?fs) found = collect_found (as_completed sched ?fs) found"
    by (simp only: collect_found_Inr set_as_completed)
  with a show ?thesis by (simp add: brute_force_subdomains_def Let_def)
qed

lemma discover_sched:
  assumes "discover env sched target wordlist found = Inr r"
  shows "discover env sched' target wordlist found = Inr r"
proof -
  from assms obtain f where f: "brute_force_subdomains env sched target wordlist found = Inr f"
    by (cases "brute_force_subdomains env sched target wordlist found") (simp_all add: discover_def)
  from brute_force_sched [OF f, of sched'] f assms show ?thesis
    by (simp add: discover_def)
qed

lemma discover_sorted:
  assumes "discover env sched target wordlist found = Inr (r, f)"
  shows "sorted (map subdomain (subdomains r))" and "distinct (map subdomain (subdomains r))"
proof -
  from assms obtain f1 where "brute_force_subdomains env sched target wordlist found = Inr f1"
    by (cases "brute_force_subdomains env sched target wordlist found") (simp_all add: discover_def)
  with assms have "map subdomain (subdomains r) = sorted_list_of_set f"
    by (auto simp: discover_def Let_def comp_def)
  then show "sorted (map subdomain (subdomains r))" and "distinct (map subdomain (subdomains r))"
    by simp_all
qed

subsection \<open>Order and identity of the results\<close>

text \<open>
  Claim C4.  The order in which the probes finish does not reach the output: the custom
  port scan returns the same list for any two schedules, sorted by port; subdomain
  discovery that returns under one schedule returns the same result under any other,
  with its entries sorted by name.
\<close>

theorem completion_order_does_not_leak:
  "custom_scan cap net sched ports st = custom_scan cap net sched' ports st \<and>
   (custom_scan cap net sched ports st = Inr es \<longrightarrow> sorted (map port es)) \<and>
   (discover env sched target wordlist found = Inr (r, f) \<longrightarrow>
      discover env sched' target wordlist found = Inr (r, f) \<and>
      sorted (map subdomain (subdomains r)))"
proof (intro conjI impI)
  show "custom_scan cap net sched ports st = custom_scan cap net sched' ports st"
    by (rule custom_scan_sched)
  show "sorted (map port es)" if "custom_scan cap net sched ports st = Inr es"
    using that by (auto simp: custom_scan_def Let_def split: sum.splits)
  show "discover env sched' target wordlist found = Inr (r, f)"
    if "discover env sched target wordlist found = Inr (r, f)"
    using that by (rule discover_sched)
  show "sorted (map subdomain (subdomains r))"
    if "discover env sched target wordlist found = Inr (r, f)"
    using that by (rule discover_sorted)
qed

theorem completion_order_does_not_leak_witness:
  "custom_scan 1000 all_connect [1, 0] ''443,22'' ''tcp''
     = Inr [\<lparr>port = 22, protocol = ''tcp'', state = ''open'', service = ''ssh''\<rparr>,
            \<lparr>port = 443, protocol = ''tcp'', state = ''open'', service = ''https''\<rparr>] \<and>
   custom_scan 1000 all_connect [0, 0] ''443,22'' ''tcp''
     = custom_scan 1000 all_connect [1, 0] ''443,22'' ''tcp'' \<and>
   sorted (map port [\<lparr>port = 22, protocol = ''tcp'', state = ''open'', service = ''ssh''\<rparr>,
            \<lparr>port = 443, protocol = ''tcp'', state = ''open'', service = ''https''\<rparr>]) \<and>
   discover only_first_resolves [1] ''example.com'' None {}
     = Inr (\<lparr>discover_target = ''example.com'',
             subdomains = [\<lparr>subdomain = ''api.example.com'', ip_address = ''N/A''\<rparr>,
                           \<lparr>subdomain = ''www.example.com'', ip_address = ''192.0.2.1''\<rparr>],
             methods_used = [''brute_force'', ''zone_transfer'', ''cert_transparency''],
             total_found = 2\<rparr>,
            {''api.example.com'', ''www.example.com''}) \<and>
   discover only_first_resolves [0] ''example.com'' None {}
     = discover only_first_resolves [1] ''example.com'' None {} \<and>
   sorted [''api.example.com'', ''www.example.com'']"
proof -
  let ?es = "[\<lparr>port = 22, protocol = ''tcp'', state = ''open'', service = ''ssh''\<rparr>,
            \<lparr>port = 443, protocol = ''tcp'', state = ''open'', service = ''https''\<rparr>]"
  let ?r = "\<lparr>discover_target = ''example.com'',
             subdomains = [\<lparr>subdomain = ''api.example.com'', ip_address = ''N/A''\<rparr>,
                           \<lparr>subdomain = ''www.example.com'', ip_address = ''192.0.2.1''\<rparr>],
             methods_used = [''brute_force'', ''zone_transfer'', ''cert_transparency''],
             total_found = 2\<rparr>"
  have c: "custom_scan 1000 all_connect [1, 0] ''443,22'' ''tcp'' = Inr ?es"
    by code_simp
  have d: "discover only_first_resolves [1] ''example.com'' None {}
             = Inr (?r, {''api.example.com'', ''www.example.com''})"
    by code_simp
  from completion_order_does_not_leak
         [where cap = 1000 and net = all_connect and sched = "[1, 0]" and ports = "''443,22''" and st = "''tcp''"
            and sched' = "[0, 0]" and es = ?es] c
       completion_order_does_not_leak
         [where env = only_first_resolves and sched = "[1]" and target = "''example.com''"
            and wordlist = None and found = "{}" and r = ?r
            and f = "{''api.example.com'', ''www.example.com''}" and sched' = "[0]"] d
  show ?thesis by simp
qed

lemma distinct_sub_mset:
  assumes "distinct ys" and "mset xs \<subseteq># mset ys"
  shows "distinct xs"
proof -
  have "count (mset xs) a \<le> 1" for a
  proof -
    have "count (mset xs) a \<le> count (mset ys) a"
      using assms(2) by (rule mset_subset_eq_count)
    also have "\<dots> \<le> 1"
      using assms(1) by (simp add: distinct_count_atmost_1)
    finally show ?thesis .
  qed
  then show ?thesis
  proof (induction xs)
    case Nil
    then show ?case by simp
  next
    case (Cons x xs)
    have "count (mset xs) a \<le> 1" for a
    proof -
      have "count (mset xs) a \<le> count (mset (x # xs)) a" by simp
      with Cons.prems [of a] show ?thesis by linarith
    qed
    then have d: "distinct xs" by (rule Cons.IH)
    have "x \<notin> set xs"
    proof
      assume "x \<in> set xs"
      then have "0 < count (mset xs) x" by simp
      with Cons.prems [of x] show False by simp
    qed
    with d show ?case by simp
  qed
qed

lemma distinct_map_fst: "distinct (map fst xs) \<Longrightarrow> distinct xs"
  by (simp add: distinct_map)

text \<open>
  Claim C5, as the specification states it, promises a port list without two entries
  for the same port and protocol also when the port string names a port twice.  The
  parsed list keeps both mentions, both are probed, and both findings are returned.
\<close>

theorem duplicate_port_counterexample:
  "custom_scan 1000 all_connect [] ''80,80'' ''tcp''
     = Inr [\<lparr>port = 80, protocol = ''tcp'', state = ''open'', service = ''http''\<rparr>,
            \<lparr>port = 80, protocol = ''tcp'', state = ''open'', service = ''http''\<rparr>]"
  by code_simp

text \<open>
  Claim C5, amended.  The subdomain list never holds a name twice, whichever methods
  found it.  The port list holds a port at most as often as the parsed port string
  names it; when the parsed list names no port twice, no two entries of the result
  have the same port and protocol.
\<close>

theorem identity_keys_unique:
  "(discover env sched target wordlist found = Inr (r, f) \<longrightarrow>
      distinct (map subdomain (subdomains r))) \<and>
   (parse_port_range cap ports = Inr pl \<and> custom_scan cap net sched ports st = Inr es \<longrightarrow>
      mset (map port es) \<subseteq># mset pl \<and>
      (distinct pl \<longrightarrow> distinct (map (\<lambda>e. (port e, protocol e)) es)))"
proof (intro conjI impI)
  show "distinct (map subdomain (subdomains r))"
    if "discover env sched target wordlist found = Inr (r, f)"
    using that by (rule discover_sorted)
next
  assume a: "parse_port_range cap ports = Inr pl \<and> custom_scan cap net sched ports st = Inr es"
  then show sub: "mset (map port es) \<subseteq># mset pl"
    using custom_scan_ports by blast
  assume "distinct pl"
  then have "distinct (map port es)"
    using sub by (rule distinct_sub_mset)
  then have "distinct (map fst (map (\<lambda>e. (port e, protocol e)) es))"
    by (simp add: comp_def)
  then show "distinct (map (\<lambda>e. (port e, protocol e)) es)"
    by (rule distinct_map_fst)
qed


theorem identity_keys_unique_witness:
  "discover only_first_resolves [1] ''example.com'' None {}
     = Inr (\<lparr>discover_target = ''example.com'',
             subdomains = [\<lparr>subdomain = ''api.example.com'', ip_address = ''N/A''\<rparr>,
                           \<lparr>subdomain = ''www.example.com'', ip_address = ''192.0.2.1''\<rparr>],
             methods_used = [''brute_force'', ''zone_transfer'', ''cert_transparency''],
             total_found = 2\<rparr>,
            {''api.example.com'', ''www.example.com''}) \<and>
   distinct [''api.example.com'', ''www.example.com''] \<and>
   parse_port_range 1000 ''443,22'' = Inr [443, 22] \<and>
   custom_scan 1000 all_connect [1, 0] ''443,22'' ''tcp''
     = Inr [\<lparr>port = 22, protocol = ''tcp'', state = ''open'', service = ''ssh''\<rparr>,
            \<lparr>port = 443, protocol = ''tcp'', state = ''open'', service = ''https''\<rparr>] \<and>
   distinct [443, 22 :: int] \<and>
   mset [22, 443 :: int] \<subseteq># mset [443, 22] \<and>
   distinct [(22 :: int, ''tcp''), (443, ''tcp'')]"
proof -
  let ?es = "[\<lparr>port = 22, protocol = ''tcp'', state = ''open'', service = ''ssh''\<rparr>,
            \<lparr>port = 443, protocol = ''tcp'', state = ''open'', service = ''https''\<rparr>]"
  let ?r = "\<lparr>discover_target = ''example.com'',
             subdomains = [\<lparr>subdomain = ''api.example.com'', ip_address = ''N/A''\<rparr>,
                           \<lparr>subdomain = ''www.example.com'', ip_address = ''192.0.2.1''\<rparr>],
             methods_used = [''brute_force'', ''zone_transfer'', ''cert_transparency''],
             total_found = 2\<rparr>"
  have p: "parse_port_range 1000 ''443,22'' = Inr [443, 22]"
    by code_simp
  have c: "custom_scan 1000 all_connect [1, 0] ''443,22'' ''tcp'' = Inr ?es"
    by code_simp
  have d: "discover only_first_resolves [1] ''example.com'' None {}
             = Inr (?r, {''api.example.com'', ''www.example.com''})"
    by code_simp
  have n: "distinct [443, 22 :: int]" by simp
  from identity_keys_unique
         [where env = only_first_resolves and sched = "[1]" and target = "''example.com''"
            and wordlist = None and found = "{}" and r = ?r
            and f = "{''api.example.com'', ''www.example.com''}"] d
       identity_keys_unique
         [where cap = 1000 and net = all_connect and sched = "[1, 0]" and ports = "''443,22''" and st = "''tcp''"
            and pl = "[443, 22]" and es = ?es] p c n
  show ?thesis by simp
qed

subsection \<open>Only open ports are reported\<close>

lemma map_sort_key: "map f (sort_key f xs) = sort (map f xs)"
  by (rule properties_for_sort [symmetric]) simp_all

lemma scan_port_None_iff:
  "scan_port w p st = None \<longleftrightarrow>
     \<not> ((st = ''tcp'' \<or> st = ''syn'') \<and> tcp_connect w = Returned 0 \<or>
        st = ''udp'' \<and> udp_reply w = Datagram)"
  by (auto simp: scan_port_def split: connect_result.splits udp_result.splits)

lemma ports_of_open_probes:
  "map port (List.map_filter (\<lambda>(i, q). scan_port (net i) q st) ips)
     = map snd (filter (\<lambda>(i, q). scan_port (net i) q st \<noteq> None) ips)"
proof (induction ips)
  case Nil
  then show ?case by (simp add: List.map_filter_simps)
next
  case (Cons ip ips)
  obtain i q where ip: "ip = (i, q)" by (cases ip)
  show ?case
  proof (cases "scan_port (net i) q st")
    case None
    with Cons ip show ?thesis by (simp add: List.map_filter_simps)
  next
    case (Some e)
    from scan_port_Some [OF Some] have "port e = q" by simp
    with Cons ip Some show ?thesis by (simp add: List.map_filter_simps)
  qed
qed

lemma detect_service_None_iff: "detect_service w p = None \<longleftrightarrow> \<not> is_port_open w"
  by (simp add: detect_service_def Let_def)

lemma ports_of_detected:
  "map svc_port (List.map_filter (\<lambda>(i, q). detect_service (snet i) q) ips)
     = map snd (filter (\<lambda>(i, q). is_port_open (snet i)) ips)"
proof (induction ips)
  case Nil
  then show ?case by (simp add: List.map_filter_simps)
next
  case (Cons ip ips)
  obtain i q where ip: "ip = (i, q)" by (cases ip)
  show ?case
  proof (cases "is_port_open (snet i)")
    case True
    with Cons ip show ?thesis by (simp add: List.map_filter_simps detect_service_def Let_def)
  next
    case False
    with Cons ip show ?thesis by (simp add: List.map_filter_simps detect_service_def)
  qed
qed

text \<open>
  Claim C10.  Every entry of the list the custom port scan returns, and every entry
  of the services list of the service detector, has the state \<open>open\<close>.  A probe that
  does not connect, a UDP probe without an answer and a port that is not open for the
  detector produce no entry: the ports of the scan's entries are, sorted, exactly the
  ports of the probes that found the port open, and the ports of the services list
  are exactly the ports found open, in the order of the port list.
\<close>

theorem reported_entries_are_open:
  "(custom_scan cap net sched ports st = Inr es \<longrightarrow> (\<forall>e \<in> set es. state e = ''open'')) \<and>
   (\<forall>s \<in> set (services (detect snet target ps)). svc_state s = ''open'') \<and>
   (tcp_connect w \<noteq> Returned 0 \<longrightarrow>
      scan_port w p ''tcp'' = None \<and> scan_port w p ''syn'' = None) \<and>
   (udp_reply w \<noteq> Datagram \<longrightarrow> scan_port w p ''udp'' = None) \<and>
   (\<not> is_port_open sw \<longrightarrow> detect_service sw p = None) \<and>
   (parse_port_range cap ports = Inr pl \<longrightarrow>
      (\<exists>found. custom_scan cap net sched ports st = Inr found \<and>
         map port found =
           sort (map snd (filter (\<lambda>(i, q). scan_port (net i) q st \<noteq> None)
                                 (zip [0..<length pl] pl))))) \<and>
   map svc_port (services (detect snet target ps)) =
     map snd (filter (\<lambda>(i, q). is_port_open (snet i))
               (zip [0..<length (case ps of None \<Rightarrow> default_ports | Some l \<Rightarrow> l)]
                    (case ps of None \<Rightarrow> default_ports | Some l \<Rightarrow> l)))"
proof (intro conjI impI)
  show "\<forall>e \<in> set es. state e = ''open''" if "custom_scan cap net sched ports st = Inr es"
    using that custom_scan_set by blast
  show "\<forall>s \<in> set (services (detect snet target ps)). svc_state s = ''open''"
    using detect_services_open by blast
  show "scan_port w p ''tcp'' = None" "scan_port w p ''syn'' = None"
    if "tcp_connect w \<noteq> Returned 0"
    using that by (simp_all add: scan_port_None_iff)
  show "scan_port w p ''udp'' = None" if "udp_reply w \<noteq> Datagram"
    using that by (simp add: scan_port_None_iff)
  show "detect_service sw p = None" if "\<not> is_port_open sw"
    using that by (simp add: detect_service_None_iff)
next
  assume p: "parse_port_range cap ports = Inr pl"
  have mf: "List.map_filter (\<lambda>r. r) (map f xs) = List.map_filter f xs"
    for f :: "nat \<times> int \<Rightarrow> port_entry option" and xs
    by (induction xs) (simp_all add: List.map_filter_simps split: option.splits)
  let ?found = "sort_key port (List.map_filter (\<lambda>(i, q). scan_port (net i) q st)
                                 (zip [0..<length pl] pl))"
  have "custom_scan cap net sched ports st = Inr ?found"
    using custom_scan_Inr [OF p, of net sched st] by (simp add: mf)
  moreover have "map port ?found =
      sort (map snd (filter (\<lambda>(i, q). scan_port (net i) q st \<noteq> None) (zip [0..<length pl] pl)))"
    by (simp only: map_sort_key ports_of_open_probes)
  ultimately show "\<exists>found. custom_scan cap net sched ports st = Inr found \<and>
         map port found =
           sort (map snd (filter (\<lambda>(i, q). scan_port (net i) q st \<noteq> None)
                                 (zip [0..<length pl] pl)))"
    by blast
next
  show "map svc_port (services (detect snet target ps)) =
     map snd (filter (\<lambda>(i, q). is_port_open (snet i))
               (zip [0..<length (case ps of None \<Rightarrow> default_ports | Some l \<Rightarrow> l)]
                    (case ps of None \<Rightarrow> default_ports | Some l \<Rightarrow> l)))"
    by (simp add: detect_def Let_def ports_of_detected)
qed

theorem reported_entries_are_open_witness:
  "parse_port_range 1000 ''20-22,80'' = Inr [20, 21, 22, 80] \<and>
   custom_scan 1000 only_22 [3, 1] ''20-22,80'' ''tcp''
     = Inr [\<lparr>port = 22, protocol = ''tcp'', state = ''open'', service = ''ssh''\<rparr>] \<and>
   state \<lparr>port = 22, protocol = ''tcp'', state = ''open'', service = ''ssh''\<rparr> = ''open'' \<and>
   (\<exists>found. custom_scan 1000 only_22 [3, 1] ''20-22,80'' ''tcp'' = Inr found \<and>
      map port found = [22]) \<and>
   tcp_connect (only_22 0) \<noteq> Returned 0 \<and> scan_port (only_22 0) 20 ''tcp'' = None \<and>
   tcp_connect (only_22 3) \<noteq> Returned 0 \<and> scan_port (only_22 3) 80 ''syn'' = None \<and>
   udp_reply (only_22 2) \<noteq> Datagram \<and> scan_port (only_22 2) 22 ''udp'' = None \<and>
   services (detect ssh_only ''example.com'' (Some [22, 80]))
     = [\<lparr>svc_port = 22, svc_state = ''open'', svc_service = ''SSH'',
         svc_banner = ''SSH-2.0-OpenSSH_8.2p1'', svc_version = ''2.0''\<rparr>] \<and>
   svc_state (hd (services (detect ssh_only ''example.com'' (Some [22, 80])))) = ''open'' \<and>
   \<not> is_port_open (ssh_only 1) \<and> detect_service (ssh_only 1) 80 = None \<and>
   map svc_port (services (detect ssh_only ''example.com'' (Some [22, 80]))) = [22]"
proof -
  let ?e = "\<lparr>port = 22, protocol = ''tcp'', state = ''open'', service = ''ssh''\<rparr>"
  let ?s = "\<lparr>svc_port = 22, svc_state = ''open'', svc_service = ''SSH'',
         svc_banner = ''SSH-2.0-OpenSSH_8.2p1'', svc_version = ''2.0''\<rparr>"
  let ?svcs = "services (detect ssh_only ''example.com'' (Some [22, 80]))"
  note t = reported_entries_are_open
         [where cap = 1000 and net = only_22 and sched = "[3, 1]" and ports = "''20-22,80''"
            and st = "''tcp''" and es = "[?e]" and pl = "[20, 21, 22, 80]"
            and snet = ssh_only and target = "''example.com''" and ps = "Some [22, 80]"
            and w = "only_22 0" and p = 20 and sw = "ssh_only 1"]
  note u = reported_entries_are_open
         [where w = "only_22 3" and p = 80 and sw = "ssh_only 1"]
  note v = reported_entries_are_open [where w = "only_22 2" and p = 22]
  have pp: "parse_port_range 1000 ''20-22,80'' = Inr [20, 21, 22, 80]" by code_simp
  have c: "custom_scan 1000 only_22 [3, 1] ''20-22,80'' ''tcp'' = Inr [?e]" by code_simp
  from t c have "\<forall>e \<in> set [?e]. state e = ''open''" by blast
  then have o: "state ?e = ''open''" by simp
  have f: "sort (map snd (filter (\<lambda>(i, q). scan_port (only_22 i) q ''tcp'' \<noteq> None)
                                 (zip [0..<length [20, 21, 22, 80 :: int]] [20, 21, 22, 80])))
             = [22]"
    by code_simp
  from t pp have "\<exists>found. custom_scan 1000 only_22 [3, 1] ''20-22,80'' ''tcp'' = Inr found \<and>
      map port found =
        sort (map snd (filter (\<lambda>(i, q). scan_port (only_22 i) q ''tcp'' \<noteq> None)
                              (zip [0..<length [20, 21, 22, 80 :: int]] [20, 21, 22, 80])))"
    by blast
  then have l: "\<exists>found. custom_scan 1000 only_22 [3, 1] ''20-22,80'' ''tcp'' = Inr found \<and>
      map port found = [22]"
    by (simp only: f)
  have h0: "tcp_connect (only_22 0) \<noteq> Returned 0" by (simp add: only_22_def)
  with t have n0: "scan_port (only_22 0) 20 ''tcp'' = None" by blast
  have h3: "tcp_connect (only_22 3) \<noteq> Returned 0" by (simp add: only_22_def)
  with u have n3: "scan_port (only_22 3) 80 ''syn'' = None" by blast
  have h2: "udp_reply (only_22 2) \<noteq> Datagram" by (simp add: only_22_def)
  with v have n2: "scan_port (only_22 2) 22 ''udp'' = None" by blast
  have d: "?svcs = [?s]" by code_simp
  from t have "\<forall>s \<in> set ?svcs. svc_state s = ''open''" by blast
  moreover have "hd ?svcs \<in> set ?svcs" by (simp add: d)
  ultimately have so: "svc_state (hd ?svcs) = ''open''" by (rule bspec)
  have hs: "\<not> is_port_open (ssh_only 1)" by (simp add: ssh_only_def is_port_open_def)
  with u have ns: "detect_service (ssh_only 1) 80 = None" by blast
  have g: "map snd (filter (\<lambda>(i, q). is_port_open (ssh_only i))
               (zip [0..<length (case Some [22, 80 :: int] of None \<Rightarrow> default_ports | Some l \<Rightarrow> l)]
                    (case Some [22, 80] of None \<Rightarrow> default_ports | Some l \<Rightarrow> l))) = [22]"
    by code_simp
  from t have "map svc_port ?svcs =
     map snd (filter (\<lambda>(i, q). is_port_open (ssh_only i))
               (zip [0..<length (case Some [22, 80 :: int] of None \<Rightarrow> default_ports | Some l \<Rightarrow> l)]
                    (case Some [22, 80] of None \<Rightarrow> default_ports | Some l \<Rightarrow> l)))"
    by blast
  then have ms: "map svc_port ?svcs = [22]" by (simp only: g)
  from pp c o l h0 n0 h3 n3 h2 n2 d so hs ns ms show ?thesis by (intro conjI)
qed

subsection \<open>Refused zone transfers\<close>

lemma zone_loop_refused:
  "\<forall>ns \<in> set nss. \<exists>e. xfr env ns = Inl e \<Longrightarrow>
     zone_loop env target nss (found, asked) = (found, asked @ nss)"
  by (induction nss arbitrary: asked) auto

lemma attempt_zone_transfer_refused:
  assumes "ns_lookup env = Inr nss" and "\<forall>ns \<in> set nss. \<exists>e. xfr env ns = Inl e"
  shows "attempt_zone_transfer env target found = (found, nss)"
  using assms zone_loop_refused [of nss env target found "[]"]
  by (simp add: attempt_zone_transfer_def)

text \<open>
  Claim C7.  When every name server of the target refuses the transfer, the zone
  transfer returns (no exception reaches the caller) with the set of found subdomains
  unchanged, after having asked every name server in turn; discovery then gives the
  result it gives when the target has no name server at all.
\<close>

theorem refused_zone_transfer_is_harmless:
  "ns_lookup env = Inr nss \<and> (\<forall>ns \<in> set nss. \<exists>e. xfr env ns = Inl e) \<longrightarrow>
     attempt_zone_transfer env target found = (found, nss) \<and>
     discover env sched target wordlist found
       = discover (env\<lparr>ns_lookup := Inr []\<rparr>) sched target wordlist found"
proof
  assume a: "ns_lookup env = Inr nss \<and> (\<forall>ns \<in> set nss. \<exists>e. xfr env ns = Inl e)"
  then have z: "attempt_zone_transfer env target f = (f, nss)" for f
    by (simp add: attempt_zone_transfer_refused)
  have z': "attempt_zone_transfer (env\<lparr>ns_lookup := Inr []\<rparr>) target f = (f, [])" for f
    by (simp add: attempt_zone_transfer_def)
  have b: "brute_force_subdomains (env\<lparr>ns_lookup := Inr []\<rparr>) sched target wordlist found
             = brute_force_subdomains env sched target wordlist found"
    by (simp add: brute_force_subdomains_def load_wordlist_def split: option.splits)
  have c: "check_cert_transparency (env\<lparr>ns_lookup := Inr []\<rparr>) target f
             = check_cert_transparency env target f" for f
    by (simp add: check_cert_transparency_def)
  have r: "resolve_subdomain (env\<lparr>ns_lookup := Inr []\<rparr>) = resolve_subdomain env"
    by (simp add: resolve_subdomain_def fun_eq_iff)
  have "discover env sched target wordlist found
       = discover (env\<lparr>ns_lookup := Inr []\<rparr>) sched target wordlist found"
    unfolding discover_def b c r z z' by (simp split: sum.splits)
  with z show "attempt_zone_transfer env target found = (found, nss) \<and>
     discover env sched target wordlist found
       = discover (env\<lparr>ns_lookup := Inr []\<rparr>) sched target wordlist found"
    by simp
qed

theorem refused_zone_transfer_is_harmless_witness:
  "ns_lookup only_first_resolves = Inr [''ns1.example.com.'', ''ns2.example.com.''] \<and>
   xfr only_first_resolves ''ns1.example.com.'' = Inl OtherError \<and>
   xfr only_first_resolves ''ns2.example.com.'' = Inl OtherError \<and>
   attempt_zone_transfer only_first_resolves ''example.com'' {''www.example.com''}
     = ({''www.example.com''}, [''ns1.example.com.'', ''ns2.example.com.'']) \<and>
   discover only_first_resolves [] ''example.com'' None {''www.example.com''}
       = discover (only_first_resolves\<lparr>ns_lookup := Inr []\<rparr>) [] ''example.com'' None
           {''www.example.com''}"
proof -
  have x: "xfr only_first_resolves ''ns1.example.com.'' = Inl OtherError"
    "xfr only_first_resolves ''ns2.example.com.'' = Inl OtherError"
    by (simp_all add: only_first_resolves_def)
  have a: "ns_lookup only_first_resolves = Inr [''ns1.example.com.'', ''ns2.example.com.''] \<and>
   (\<forall>ns \<in> set [''ns1.example.com.'', ''ns2.example.com.''].
      \<exists>e. xfr only_first_resolves ns = Inl e)"
    using x by (simp add: only_first_resolves_def)
  from refused_zone_transfer_is_harmless
         [where env = only_first_resolves and nss = "[''ns1.example.com.'', ''ns2.example.com.'']"
            and target = "''example.com''" and found = "{''www.example.com''}"
            and sched = "[]" and wordlist = None, THEN mp, OF a] a x
  show ?thesis by simp
qed

subsection \<open>Parsing of port strings\<close>











































subsection \<open>Failures of single tasks\<close>

lemma test_subdomain_cases:
  "test_subdomain answer target sub =
     (case answer of
        Inr ip \<Rightarrow> Inr (Some (sub @ ''.'' @ target))
      | Inl e \<Rightarrow> if e = Gaierror then Inr None else Inl e)"
  by (simp add: test_subdomain_def Let_def split: sum.splits)

lemma brute_force_absorbs:
  assumes g: "\<forall>i < length (load_wordlist env wordlist). \<forall>e. brute_lookup env i = Inl e \<longrightarrow> e = Gaierror"
  shows "brute_force_subdomains env sched target wordlist found =
           Inr (found \<union> {sub @ ''.'' @ target | i sub.
                  (i, sub) \<in> set (zip [0..<length (load_wordlist env wordlist)] (load_wordlist env wordlist))
                  \<and> (\<exists>ip. brute_lookup env i = Inr ip)})"
proof -
  let ?wl = "load_wordlist env wordlist"
  let ?fs = "map (\<lambda>(i, sub). test_subdomain (brute_lookup env i) target sub) (zip [0..<length ?wl] ?wl)"
  have ne: "\<forall>e. Inl e \<notin> set ?fs"
  proof (intro allI notI)
    fix e assume "Inl e \<in> set ?fs"
    then obtain i sub where m: "(i, sub) \<in> set (zip [0..<length ?wl] ?wl)"
      and t: "test_subdomain (brute_lookup env i) target sub = Inl e"
      by auto
    from m have "i < length ?wl" by (auto dest: set_zip_leftD)
    with g have "\<forall>e. brute_lookup env i = Inl e \<longrightarrow> e = Gaierror" by blast
    with t show False
      by (auto simp: test_subdomain_cases split: sum.splits if_splits)
  qed
  have s: "{d. Inr (Some d) \<in> set ?fs}
             = {sub @ ''.'' @ target | i sub. (i, sub) \<in> set (zip [0..<length ?wl] ?wl)
                  \<and> (\<exists>ip. brute_lookup env i = Inr ip)}"
    by (auto simp: test_subdomain_cases image_iff split: sum.splits if_splits) force+
  from ne have "collect_found (as_completed sched ?fs) found
                  = Inr (found \<union> {d. Inr (Some d) \<in> set ?fs})"
    by (simp add: collect_found_Inr set_as_completed)
  then show ?thesis
    unfolding s by (simp add: brute_force_subdomains_def Let_def)
qed

lemma collect_found_raises:
  "collect_found rs found = Inl e \<Longrightarrow> Inl e \<in> set rs"
  by (induction rs found rule: collect_found.induct) auto

lemma brute_force_aborts:
  assumes i: "i < length (load_wordlist env wordlist)"
    and r: "brute_lookup env i = Inl e" and e: "e \<noteq> Gaierror"
  shows "\<exists>e' j. j < length (load_wordlist env wordlist) \<and> brute_lookup env j = Inl e' \<and>
           e' \<noteq> Gaierror \<and> brute_force_subdomains env sched target wordlist found = Inl e'"
proof -
  let ?wl = "load_wordlist env wordlist"
  let ?fs = "map (\<lambda>(i, sub). test_subdomain (brute_lookup env i) target sub) (zip [0..<length ?wl] ?wl)"
  from i have "(i, ?wl ! i) \<in> set (zip [0..<length ?wl] ?wl)"
    by (force simp: in_set_zip)
  then have "test_subdomain (brute_lookup env i) target (?wl ! i) \<in> set ?fs"
    by force
  with r e have "Inl e \<in> set ?fs" by (simp add: test_subdomain_cases)
  then have "Inl e \<in> set (as_completed sched ?fs)" by (simp add: set_as_completed)
  then obtain e' where e': "collect_found (as_completed sched ?fs) found = Inl e'"
    using collect_found_Inl by blast
  from collect_found_raises [OF e'] have "Inl e' \<in> set ?fs" by (simp add: set_as_completed)
  then obtain j sub where j: "(j, sub) \<in> set (zip [0..<length ?wl] ?wl)"
    and t: "test_subdomain (brute_lookup env j) target sub = Inl e'"
    by auto
  from j have "j < length ?wl" by (auto dest: set_zip_leftD)
  moreover from t have "brute_lookup env j = Inl e' \<and> e' \<noteq> Gaierror"
    by (auto simp: test_subdomain_cases split: sum.splits if_splits)
  ultimately show ?thesis using e' by (auto simp: brute_force_subdomains_def Let_def)
qed

text \<open>
  Claim C8.  Every failure of a port probe is absorbed, and so is a subdomain test
  whose name does not resolve.  A subdomain test that fails in another way is not:
  for a wordlist with the lines \<open>www\<close>, a label of 64 letters and \<open>mail\<close>, where
  \<open>www.example.com\<close> resolves and the lookup of the second name raises an exception
  that is not \<open>socket.gaierror\<close>, the test of the second name raises, the brute force
  raises under every schedule, and discovery raises instead of reporting
  \<open>www.example.com\<close>.  The same run without the second line reports it.  A port
  probe and the final resolution of a name absorb every exception.
\<close>

theorem lookup_error_aborts_discovery:
  "load_wordlist label_too_long (Some ''words.txt'') = [''www'', replicate 64 CHR ''a'', ''mail''] \<and>
   test_subdomain (brute_lookup label_too_long 0) ''example.com'' ''www''
     = Inr (Some ''www.example.com'') \<and>
   test_subdomain (brute_lookup label_too_long 1) ''example.com'' (replicate 64 CHR ''a'')
     = Inl OtherError \<and>
   test_subdomain (brute_lookup label_too_long 2) ''example.com'' ''mail'' = Inr None \<and>
   brute_force_subdomains label_too_long sched ''example.com'' (Some ''words.txt'') {}
     = Inl OtherError \<and>
   discover label_too_long sched ''example.com'' (Some ''words.txt'') {} = Inl OtherError \<and>
   map_sum id (subdomains \<circ> fst)
     (discover (label_too_long\<lparr>brute_lookup := \<lambda>i. if i = 0 then Inr ''192.0.2.1'' else Inl Gaierror,
                       read_wordlist := \<lambda>path. Inr [''www'', ''mail'']\<rparr>) sched
        ''example.com'' (Some ''words.txt'') {})
     = Inr [\<lparr>subdomain = ''www.example.com'', ip_address = ''192.0.2.1''\<rparr>] \<and>
   scan_port \<lparr>tcp_connect = Connect_raised, udp_reply = Udp_raised\<rparr> p st = None \<and>
   resolve_subdomain (label_too_long\<lparr>gethostbyname := \<lambda>name. Inl OtherError\<rparr>) name = ''N/A''"
proof (intro conjI)
  show wl: "load_wordlist label_too_long (Some ''words.txt'')
              = [''www'', replicate 64 CHR ''a'', ''mail'']"
    by code_simp
  show "test_subdomain (brute_lookup label_too_long 0) ''example.com'' ''www''
     = Inr (Some ''www.example.com'')"
    by (simp add: label_too_long_def test_subdomain_def)
  show "test_subdomain (brute_lookup label_too_long 1) ''example.com'' (replicate 64 CHR ''a'')
     = Inl OtherError"
    by (simp add: label_too_long_def test_subdomain_def)
  show "test_subdomain (brute_lookup label_too_long 2) ''example.com'' ''mail'' = Inr None"
    by (simp add: label_too_long_def test_subdomain_def)
  have "\<exists>e' j. j < length (load_wordlist label_too_long (Some ''words.txt'')) \<and>
      brute_lookup label_too_long j = Inl e' \<and> e' \<noteq> Gaierror \<and>
      brute_force_subdomains label_too_long sched ''example.com'' (Some ''words.txt'') {} = Inl e'"
    by (rule brute_force_aborts [where i = 1 and e = OtherError])
       (simp_all add: wl, simp add: label_too_long_def)
  then obtain e' j where "brute_lookup label_too_long j = Inl e'" "e' \<noteq> Gaierror"
    and e': "brute_force_subdomains label_too_long sched ''example.com''
      (Some ''words.txt'') {} = Inl e'" by blast
  then have "e' = OtherError"
    by (auto simp: label_too_long_def split: if_splits)
  with e' show b: "brute_force_subdomains label_too_long sched ''example.com'' (Some ''words.txt'') {}
     = Inl OtherError"
    by simp
  then show "discover label_too_long sched ''example.com'' (Some ''words.txt'') {} = Inl OtherError"
    by (simp add: discover_def)
  show "scan_port \<lparr>tcp_connect = Connect_raised, udp_reply = Udp_raised\<rparr> p st = None"
    by (simp add: scan_port_def)
  show "resolve_subdomain (label_too_long\<lparr>gethostbyname := \<lambda>name. Inl OtherError\<rparr>) name = ''N/A''"
    by (simp add: resolve_subdomain_def)
  show "map_sum id (subdomains \<circ> fst)
     (discover (label_too_long\<lparr>brute_lookup := \<lambda>i. if i = 0 then Inr ''192.0.2.1'' else Inl Gaierror,
                       read_wordlist := \<lambda>path. Inr [''www'', ''mail'']\<rparr>) sched
        ''example.com'' (Some ''words.txt'') {})
     = Inr [\<lparr>subdomain = ''www.example.com'', ip_address = ''192.0.2.1''\<rparr>]"
  proof -
    let ?env = "label_too_long\<lparr>brute_lookup := \<lambda>i. if i = 0 then Inr ''192.0.2.1'' else Inl Gaierror,
                       read_wordlist := \<lambda>path. Inr [''www'', ''mail'']\<rparr>"
    let ?r = "\<lparr>discover_target = ''example.com'',
                subdomains = [\<lparr>subdomain = ''www.example.com'', ip_address = ''192.0.2.1''\<rparr>],
                methods_used = [''brute_force'', ''zone_transfer'', ''cert_transparency''],
                total_found = 1\<rparr>"
    have "discover ?env [] ''example.com'' (Some ''words.txt'') {} = Inr (?r, {''www.example.com''})"
      by code_simp
    then have "discover ?env sched ''example.com'' (Some ''words.txt'') {}
                 = Inr (?r, {''www.example.com''})"
      by (rule discover_sched)
    then show ?thesis by simp
  qed
qed

end
